theory Spec2Isabelle
  imports Main
begin

section \<open>Python strings\<close>

text \<open>
  A Python \<open>str\<close> is modelled as a \<^typ>\<open>string\<close>: a list of characters, each a code
  point below 256. The string methods the crawler and \<open>urllib.parse\<close> call are written
  out below with Python's names.
\<close>

definition startswith :: "string \<Rightarrow> string \<Rightarrow> bool" where
  "startswith s p = (take (length p) s = p)"

definition endswith :: "string \<Rightarrow> string \<Rightarrow> bool" where
  "endswith s x = (length x \<le> length s \<and> drop (length s - length x) s = x)"

text \<open>\<open>s.find(c)\<close>: the index of the first occurrence, \<open>None\<close> for Python's \<open>-1\<close>.\<close>

definition str_find :: "char \<Rightarrow> string \<Rightarrow> nat option" where
  "str_find c s = (if c \<in> set s then Some (length (takeWhile (\<lambda>x. x \<noteq> c) s)) else None)"

text \<open>\<open>s.find(c, start)\<close> for \<open>start \<le> len(s)\<close>.\<close>

definition str_find_from :: "char \<Rightarrow> nat \<Rightarrow> string \<Rightarrow> nat option" where
  "str_find_from c start s = map_option (\<lambda>i. i + start) (str_find c (drop start s))"

definition str_rfind :: "char \<Rightarrow> string \<Rightarrow> nat option" where
  "str_rfind c s =
     (if c \<in> set s then Some (length s - 1 - length (takeWhile (\<lambda>x. x \<noteq> c) (rev s))) else None)"

text \<open>\<open>s.split(c, 1)\<close> for a string that contains \<open>c\<close>: the parts before and after the
  first occurrence.\<close>

definition split1 :: "char \<Rightarrow> string \<Rightarrow> string \<times> string" where
  "split1 c s = (takeWhile (\<lambda>x. x \<noteq> c) s, drop 1 (dropWhile (\<lambda>x. x \<noteq> c) s))"

text \<open>\<open>str.lower()\<close> on code points below 256: the ASCII capitals and the Latin-1
  capitals (all of \<open>0xC0..0xDE\<close> but the multiplication sign) move up by 32.\<close>

definition char_lower :: "char \<Rightarrow> char" where
  "char_lower c =
     (let n = (of_char c :: nat)
      in if (65 \<le> n \<and> n \<le> 90) \<or> (192 \<le> n \<and> n \<le> 222 \<and> n \<noteq> 215)
         then char_of (n + 32) else c)"

definition lower :: "string \<Rightarrow> string" where
  "lower s = map char_lower s"

text \<open>\<open>c.isascii() and c.isalpha()\<close>.\<close>

definition is_ascii_alpha :: "char \<Rightarrow> bool" where
  "is_ascii_alpha c =
     (let n = (of_char c :: nat) in (65 \<le> n \<and> n \<le> 90) \<or> (97 \<le> n \<and> n \<le> 122))"

section \<open>urllib.parse\<close>

text \<open>
  The crawler parses and rebuilds every URL with \<open>urlparse\<close>, \<open>urlunparse\<close> and
  \<open>urljoin\<close> of the standard library. They are embedded here from
  \<open>Lib/urllib/parse.py\<close> of CPython, statement by statement, for \<open>str\<close> arguments and
  \<open>allow_fragments=True\<close>.

  The repository does not fix the release of Python it runs on, and the releases of
  \<open>urllib.parse\<close> differ. The functions below take the library as a parameter
  \<open>lib\<close>, with one field for each place where CPython 3.11.10 and CPython 3.12.3
  differ in the functions the crawler calls:
  \<^item> \<open>checks_netloc\<close>: for an authority with both brackets, \<open>urlsplit\<close> calls
    \<open>_check_bracketed_netloc\<close> on the whole authority (3.12.3, and the releases that
    carry this fix), not \<open>_check_bracketed_host\<close> on the text between the first
    \<open>[\<close> and the next \<open>]\<close> (3.11.10);
  \<^item> \<open>unsplit_keeps_slashes\<close>: \<open>urlunsplit\<close> writes \<open>//\<close> and the authority when
    \<open>netloc or (scheme and scheme in uses_netloc) or url[:2] == '//'\<close> (3.11.10), not
    when \<open>netloc or (scheme and scheme in uses_netloc and url[:2] != '//')\<close> (3.12.3);
  \<^item> \<open>knows_itms_services\<close>: \<open>uses_netloc\<close> lists \<open>itms-services\<close> (3.12.3).

  The fourth field is the answer of another library: \<open>_check_bracketed_host\<close> asks
  \<open>ipaddress.ip_address\<close> whether a host is an IPv6 address, and \<open>ip_address_v6\<close> is
  that answer.

  \<open>_checknetloc\<close> raises when the NFKC normal form of a non-ASCII authority contains
  one of \<open>/ ? # @ :\<close>. No code point below 256 has such a normal form, so on the strings
  of this model the check never raises and it is left out.
\<close>

record urllib =
  ip_address_v6 :: "string \<Rightarrow> bool"
  checks_netloc :: bool
  unsplit_keeps_slashes :: bool
  knows_itms_services :: bool


definition cpython_3_12_3 :: "(string \<Rightarrow> bool) \<Rightarrow> urllib" where
  "cpython_3_12_3 ip =
     \<lparr>ip_address_v6 = ip, checks_netloc = True, unsplit_keeps_slashes = False,
      knows_itms_services = True\<rparr>"

datatype error = ValueError

record parse_result =
  scheme :: string
  netloc :: string
  path :: string
  params :: string
  query :: string
  fragment :: string

definition uses_relative :: "string list" where
  "uses_relative = ['''', ''ftp'', ''http'', ''gopher'', ''nntp'', ''imap'',
     ''wais'', ''file'', ''https'', ''shttp'', ''mms'',
     ''prospero'', ''rtsp'', ''rtsps'', ''rtspu'', ''sftp'',
     ''svn'', ''svn+ssh'', ''ws'', ''wss'']"

definition uses_netloc :: "urllib \<Rightarrow> string list" where
  "uses_netloc lib = ['''', ''ftp'', ''http'', ''gopher'', ''nntp'', ''telnet'',
     ''imap'', ''wais'', ''file'', ''mms'', ''https'', ''shttp'',
     ''snews'', ''prospero'', ''rtsp'', ''rtsps'', ''rtspu'', ''rsync'',
     ''svn'', ''svn+ssh'', ''sftp'', ''nfs'', ''git'', ''git+ssh'',
     ''ws'', ''wss''] @ (if knows_itms_services lib then [''itms-services''] else [])"

definition uses_params :: "string list" where
  "uses_params = ['''', ''ftp'', ''hdl'', ''prospero'', ''http'', ''imap'',
     ''https'', ''shttp'', ''rtsp'', ''rtsps'', ''rtspu'', ''sip'',
     ''sips'', ''mms'', ''sftp'', ''tel'']"

definition scheme_chars :: string where
  "scheme_chars = ''abcdefghijklmnopqrstuvwxyzABCDEFGHIJKLMNOPQRSTUVWXYZ0123456789+-.''"

text \<open>\<open>_WHATWG_C0_CONTROL_OR_SPACE\<close>: the code points 0 to 32.\<close>

definition c0_control_or_space :: "char \<Rightarrow> bool" where
  "c0_control_or_space c = ((of_char c :: nat) \<le> 32)"

text \<open>\<open>_UNSAFE_URL_BYTES_TO_REMOVE\<close>: tab, carriage return, line feed.\<close>

definition unsafe_url_byte :: "char \<Rightarrow> bool" where
  "unsafe_url_byte c = (c = CHR 0x09 \<or> c = CHR 0x0D \<or> c = CHR 0x0A)"

definition remove_unsafe :: "string \<Rightarrow> string" where
  "remove_unsafe s = filter (\<lambda>c. \<not> unsafe_url_byte c) s"

definition lstrip_c0 :: "string \<Rightarrow> string" where
  "lstrip_c0 s = dropWhile c0_control_or_space s"

definition strip_c0 :: "string \<Rightarrow> string" where
  "strip_c0 s = rev (dropWhile c0_control_or_space (rev (dropWhile c0_control_or_space s)))"

text \<open>The scheme of \<open>urlsplit\<close>: the text before the first colon, lowered, when the
  colon is not the first character, the first character is an ASCII letter and every
  character before the colon is a scheme character; the default otherwise.\<close>

definition split_scheme :: "string \<Rightarrow> string \<Rightarrow> string \<times> string" where
  "split_scheme dflt url =
     (case str_find (CHR '':'') url of
        None \<Rightarrow> (dflt, url)
      | Some i \<Rightarrow>
          if 0 < i \<and> is_ascii_alpha (hd url) \<and> (\<forall>c \<in> set (take i url). c \<in> set scheme_chars)
          then (lower (take i url), drop (i + 1) url)
          else (dflt, url))"

text \<open>\<open>_splitnetloc(url, start)\<close>: the authority ends at the first of \<open>/ ? #\<close> at or
  after \<open>start\<close>, or at the end of the string.\<close>

definition splitnetloc :: "string \<Rightarrow> nat \<Rightarrow> string \<times> string" where
  "splitnetloc url start =
     (let delim = fold (\<lambda>c delim. case str_find_from c start url of
                                      None \<Rightarrow> delim
                                    | Some wdelim \<Rightarrow> min delim wdelim)
                       ''/?#'' (length url)
      in (drop start (take delim url), drop delim url))"

text \<open>\<open>_check_bracketed_host\<close>: a host starting with \<open>v\<close> has to match
  \<open>\Av[a-fA-F0-9]+\..+\Z\<close>; any other has to be an IPv6 address for \<open>ipaddress\<close>.\<close>

definition is_hex_digit :: "char \<Rightarrow> bool" where
  "is_hex_digit c = (c \<in> set ''abcdefABCDEF0123456789'')"

definition check_bracketed_host :: "urllib \<Rightarrow> string \<Rightarrow> bool" where
  "check_bracketed_host lib hostname =
     (if startswith hostname ''v''
      then (let digits = takeWhile is_hex_digit (drop 1 hostname);
                rest = dropWhile is_hex_digit (drop 1 hostname)
            in digits \<noteq> [] \<and> take 1 rest = ''.'' \<and> drop 1 rest \<noteq> []
               \<and> CHR 0x0A \<notin> set (drop 1 rest))
      else ip_address_v6 lib hostname)"

text \<open>\<open>s.partition(c)\<close>: the text before the first \<open>c\<close>, whether there is one, and the
  text after it. \<open>s.rpartition(c)[2]\<close>: the text after the last \<open>c\<close>, all of \<open>s\<close> when
  there is none.\<close>

definition str_partition :: "char \<Rightarrow> string \<Rightarrow> string \<times> bool \<times> string" where
  "str_partition c s =
     (takeWhile (\<lambda>x. x \<noteq> c) s, c \<in> set s, drop 1 (dropWhile (\<lambda>x. x \<noteq> c) s))"

definition str_rpartition_last :: "char \<Rightarrow> string \<Rightarrow> string" where
  "str_rpartition_last c s = rev (takeWhile (\<lambda>x. x \<noteq> c) (rev s))"

text \<open>\<open>_check_bracketed_netloc\<close>: nothing may stand between the user information and
  the bracket, and only a port after the closing bracket.\<close>

definition check_bracketed_netloc :: "urllib \<Rightarrow> string \<Rightarrow> bool" where
  "check_bracketed_netloc lib nl =
     (let hostname_and_port = str_rpartition_last (CHR ''@'') nl;
          (before_bracket, have_open_br, bracketed) = str_partition (CHR ''['') hostname_and_port
      in if have_open_br
         then if before_bracket \<noteq> '''' then False
              else let (hostname, have_close_br, port) = str_partition (CHR '']'') bracketed
                   in if port \<noteq> '''' \<and> \<not> startswith port '':'' then False
                      else check_bracketed_host lib hostname
         else let (hostname, have_colon, port) = str_partition (CHR '':'') hostname_and_port
              in check_bracketed_host lib hostname)"

text \<open>The bracket checks of \<open>urlsplit\<close> on the authority; \<open>False\<close> is the
  \<open>ValueError\<close>.\<close>

definition netloc_ok :: "urllib \<Rightarrow> string \<Rightarrow> bool" where
  "netloc_ok lib nl =
     (if (CHR ''['' \<in> set nl \<and> CHR '']'' \<notin> set nl) \<or> (CHR '']'' \<in> set nl \<and> CHR ''['' \<notin> set nl)
      then False
      else if CHR ''['' \<in> set nl \<and> CHR '']'' \<in> set nl
      then if checks_netloc lib then check_bracketed_netloc lib nl
           else check_bracketed_host lib
                  (takeWhile (\<lambda>x. x \<noteq> CHR '']'') (drop 1 (dropWhile (\<lambda>x. x \<noteq> CHR ''['') nl)))
      else True)"

text \<open>\<open>urlsplit(url, scheme)\<close>: the 5-tuple scheme, netloc, path, query, fragment.\<close>

definition urlsplit ::
  "urllib \<Rightarrow> string \<Rightarrow> string \<Rightarrow> error + (string \<times> string \<times> string \<times> string \<times> string)" where
  "urlsplit lib url0 scheme0 =
     (let url = remove_unsafe (lstrip_c0 url0);
          dflt = remove_unsafe (strip_c0 scheme0);
          (sch, url) = split_scheme dflt url;
          (nl, url) = (if take 2 url = ''//'' then splitnetloc url 2 else ('''', url))
      in if \<not> netloc_ok lib nl then Inl ValueError
         else
           let (url, frag) = (if CHR ''#'' \<in> set url then split1 (CHR ''#'') url else (url, ''''));
               (url, qry) = (if CHR ''?'' \<in> set url then split1 (CHR ''?'') url else (url, ''''))
           in Inr (sch, nl, url, qry, frag))"

text \<open>\<open>_splitparams(url)\<close>, called only when \<open>url\<close> contains a semicolon: the
  parameters start at the first semicolon of the last path segment.\<close>

definition splitparams :: "string \<Rightarrow> string \<times> string" where
  "splitparams url =
     (case str_rfind (CHR ''/'') url of
        Some j \<Rightarrow> (case str_find_from (CHR '';'') j url of
                     None \<Rightarrow> (url, '''')
                   | Some i \<Rightarrow> (take i url, drop (i + 1) url))
      | None \<Rightarrow> (case str_find (CHR '';'') url of
                   None \<Rightarrow> (butlast url, url)
                 | Some i \<Rightarrow> (take i url, drop (i + 1) url)))"

definition urlparse :: "urllib \<Rightarrow> string \<Rightarrow> string \<Rightarrow> error + parse_result" where
  "urlparse lib url0 scheme0 =
     (case urlsplit lib url0 scheme0 of
        Inl e \<Rightarrow> Inl e
      | Inr (sch, nl, url, qry, frag) \<Rightarrow>
          let (url, prm) = (if sch \<in> set uses_params \<and> CHR '';'' \<in> set url
                            then splitparams url else (url, ''''))
          in Inr \<lparr>scheme = sch, netloc = nl, path = url, params = prm,
                  query = qry, fragment = frag\<rparr>)"

text \<open>\<open>urlunsplit(components)\<close>. The test of its first \<open>if\<close> is the one of the
  release.\<close>

definition urlunsplit :: "urllib \<Rightarrow> string \<times> string \<times> string \<times> string \<times> string \<Rightarrow> string" where
  "urlunsplit lib components =
     (case components of (sch, nl, url, qry, frag) \<Rightarrow>
        let url = (if (if unsplit_keeps_slashes lib
                       then nl \<noteq> '''' \<or> (sch \<noteq> '''' \<and> sch \<in> set (uses_netloc lib))
                            \<or> take 2 url = ''//''
                       else nl \<noteq> '''' \<or> (sch \<noteq> '''' \<and> sch \<in> set (uses_netloc lib)
                                           \<and> take 2 url \<noteq> ''//''))
                   then ''//'' @ nl @ (if url \<noteq> '''' \<and> take 1 url \<noteq> ''/'' then ''/'' @ url else url)
                   else url);
            url = (if sch \<noteq> '''' then sch @ '':'' @ url else url);
            url = (if qry \<noteq> '''' then url @ ''?'' @ qry else url);
            url = (if frag \<noteq> '''' then url @ ''#'' @ frag else url)
        in url)"

definition urlunparse :: "urllib \<Rightarrow> parse_result \<Rightarrow> string" where
  "urlunparse lib p =
     (let url = (if params p \<noteq> '''' then path p @ '';'' @ params p else path p)
      in urlunsplit lib (scheme p, netloc p, url, query p, fragment p))"

section \<open>The crawler's URL functions\<close>

text \<open>\<open>WebCrawler.normalize_url\<close>. A \<open>ValueError\<close> of \<open>urlparse\<close> is not caught here.\<close>

definition normalize_url :: "urllib \<Rightarrow> string \<Rightarrow> error + string" where
  "normalize_url lib url =
     (case urlparse lib url '''' of
        Inl e \<Rightarrow> Inl e
      | Inr parsed \<Rightarrow>
          let normalized = urlunparse lib (parsed\<lparr>fragment := ''''\<rparr>)
          in Inr (if endswith normalized ''/'' \<and> 1 < length (path parsed)
                  then butlast normalized else normalized))"

definition excluded_extensions :: "string list" where
  "excluded_extensions =
     [''.pdf'', ''.doc'', ''.docx'', ''.xls'', ''.xlsx'', ''.ppt'', ''.pptx'',
      ''.zip'', ''.rar'', ''.tar'', ''.gz'', ''.mp3'', ''.mp4'', ''.avi'',
      ''.jpg'', ''.jpeg'', ''.png'', ''.gif'', ''.svg'', ''.ico'',
      ''.css'', ''.js'', ''.xml'', ''.json'']"

text \<open>\<open>WebCrawler.is_valid_url\<close>: the \<open>try\<close> turns every exception into \<open>False\<close>.\<close>

definition is_valid_url :: "urllib \<Rightarrow> bool \<Rightarrow> string \<Rightarrow> string \<Rightarrow> bool" where
  "is_valid_url lib allow_external url base_domain =
     (case urlparse lib url '''' of
        Inl e \<Rightarrow> False
      | Inr parsed \<Rightarrow>
          if scheme parsed \<notin> set [''http'', ''https''] then False
          else if \<not> allow_external \<and> netloc parsed \<noteq> base_domain then False
          else if (\<exists>ext \<in> set excluded_extensions. endswith (lower (path parsed)) ext) then False
          else if fragment parsed \<noteq> '''' then False
          else True)"

section \<open>urljoin\<close>

text \<open>\<open>s.split(c)\<close> and \<open>c.join(parts)\<close>.\<close>

fun str_split :: "char \<Rightarrow> string \<Rightarrow> string list" where
  "str_split c [] = [[]]"
| "str_split c (x # xs) =
     (if x = c then [] # str_split c xs
      else (x # hd (str_split c xs)) # tl (str_split c xs))"

fun str_join :: "char \<Rightarrow> string list \<Rightarrow> string" where
  "str_join c [] = []"
| "str_join c [s] = s"
| "str_join c (s # t # ts) = s @ c # str_join c (t # ts)"

text \<open>The loop of \<open>urljoin\<close> over the path segments: \<open>..\<close> pops the last resolved
  segment (and does nothing on an empty list), \<open>.\<close> is skipped.\<close>

fun resolve_segments :: "string list \<Rightarrow> string list \<Rightarrow> string list" where
  "resolve_segments [] resolved_path = resolved_path"
| "resolve_segments (seg # segs) resolved_path =
     (if seg = ''..'' then resolve_segments segs (butlast resolved_path)
      else if seg = ''.'' then resolve_segments segs resolved_path
      else resolve_segments segs (resolved_path @ [seg]))"

definition urljoin :: "urllib \<Rightarrow> string \<Rightarrow> string \<Rightarrow> error + string" where
  "urljoin lib base url =
     (if base = '''' then Inr url
      else if url = '''' then Inr base
      else case urlparse lib base '''' of
        Inl e \<Rightarrow> Inl e
      | Inr b \<Rightarrow>
         (case urlparse lib url (scheme b) of
            Inl e \<Rightarrow> Inl e
          | Inr u \<Rightarrow>
              if scheme u \<noteq> scheme b \<or> scheme u \<notin> set uses_relative then Inr url
              else if scheme u \<in> set (uses_netloc lib) \<and> netloc u \<noteq> '''' then Inr (urlunparse lib u)
              else
                let nl = (if scheme u \<in> set (uses_netloc lib) then netloc b else netloc u)
                in if path u = '''' \<and> params u = ''''
                   then Inr (urlunparse lib (u\<lparr>netloc := nl, path := path b, params := params b,
                               query := (if query u = '''' then query b else query u)\<rparr>))
                   else
                     let base_parts = str_split (CHR ''/'') (path b);
                         base_parts = (if last base_parts \<noteq> '''' then butlast base_parts
                                       else base_parts);
                         segments =
                           (if take 1 (path u) = ''/'' then str_split (CHR ''/'') (path u)
                            else let segs = base_parts @ str_split (CHR ''/'') (path u)
                                 in take 1 segs @ filter (\<lambda>s. s \<noteq> '''') (butlast (drop 1 segs))
                                    @ (if 2 \<le> length segs then [last segs] else []));
                         resolved_path = resolve_segments segments [];
                         resolved_path = (if last segments \<in> set [''.'', ''..'']
                                          then resolved_path @ [''''] else resolved_path);
                         joined = str_join (CHR ''/'') resolved_path
                     in Inr (urlunparse lib (u\<lparr>netloc := nl,
                               path := (if joined = '''' then ''/'' else joined)\<rparr>))))"

section \<open>Fetching a page\<close>

text \<open>
  What lies outside the repository is a parameter of the model, the environment:
  \<^item> \<open>http_get n url\<close> is what the \<open>n\<close>-th request of a run, a GET of \<open>url\<close>, gives:
    \<open>None\<close> when \<open>requests\<close> raises (connection error, timeout, an error status in
    \<open>raise_for_status\<close>), otherwise the content type header (empty when absent), and
    what \<open>trafilatura\<close> and \<open>BeautifulSoup\<close> find in the body: the title and the
    cleaned text of \<open>extract_content\<close>, and the \<open>href\<close> values of the anchors in
    document order;
  \<^item> \<open>url_lib\<close> is the \<open>urllib.parse\<close> of the Python that runs the crawler (see
    above);
  \<^item> \<open>set_order\<close> is the order in which \<open>list(set(links))\<close> lists a set of links.
\<close>

record response =
  content_type :: string
  extracted_title :: string
  extracted_content :: string
  anchor_hrefs :: "string list"

record env =
  http_get :: "nat \<Rightarrow> string \<Rightarrow> response option"
  url_lib :: urllib
  set_order :: "string list \<Rightarrow> string list"

text \<open>The dictionary that \<open>fetch_page\<close> returns, with its keys \<open>url\<close>, \<open>title\<close>,
  \<open>content\<close> and \<open>links\<close>.\<close>

record page_data =
  page_url :: string
  page_title :: string
  page_content :: string
  page_links :: "string list"

text \<open>\<open>str.isspace()\<close> on code points below 256, and \<open>str.strip()\<close>.\<close>

definition is_space :: "char \<Rightarrow> bool" where
  "is_space c =
     (let n = (of_char c :: nat)
      in (9 \<le> n \<and> n \<le> 13) \<or> (28 \<le> n \<and> n \<le> 32) \<or> n = 133 \<or> n = 160)"

definition str_strip :: "string \<Rightarrow> string" where
  "str_strip s = rev (dropWhile is_space (rev (dropWhile is_space s)))"

text \<open>\<open>sub in s\<close>.\<close>

definition str_contains :: "string \<Rightarrow> string \<Rightarrow> bool" where
  "str_contains sub s = (\<exists>i \<in> set [0..<Suc (length s)]. take (length sub) (drop i s) = sub)"

text \<open>\<open>TextExtractor._extract_links\<close>: the loop stops at the first \<open>href\<close> on which
  \<open>urljoin\<close> raises, keeping the links collected so far.\<close>

fun extract_links_loop :: "urllib \<Rightarrow> string \<Rightarrow> string list \<Rightarrow> string list \<Rightarrow> string list" where
  "extract_links_loop lib base_url [] links = links"
| "extract_links_loop lib base_url (h # hs) links =
     (let href = str_strip h
      in if href \<noteq> '''' \<and> \<not> (startswith href ''#'' \<or> startswith href ''javascript:''
                               \<or> startswith href ''mailto:'' \<or> startswith href ''tel:'')
         then (case urljoin lib base_url href of
                 Inl e \<Rightarrow> links
               | Inr absolute_url \<Rightarrow> extract_links_loop lib base_url hs (links @ [absolute_url]))
         else extract_links_loop lib base_url hs links)"

definition extract_links :: "env \<Rightarrow> string list \<Rightarrow> string \<Rightarrow> string list" where
  "extract_links e hrefs base_url = set_order e (extract_links_loop (url_lib e) base_url hrefs [])"

text \<open>\<open>WebCrawler.fetch_page\<close>: every failure is \<open>None\<close>.\<close>

definition fetch_page :: "env \<Rightarrow> nat \<Rightarrow> string \<Rightarrow> page_data option" where
  "fetch_page e n u =
     (case http_get e n u of
        None \<Rightarrow> None
      | Some resp \<Rightarrow>
          if \<not> str_contains ''text/html'' (lower (content_type resp)) then None
          else if str_strip (extracted_content resp) = '''' then None
          else Some \<lparr>page_url = u, page_title = extracted_title resp,
                      page_content = extracted_content resp,
                      page_links = extract_links e (anchor_hrefs resp) u\<rparr>)"

section \<open>The crawl loop\<close>

text \<open>
  The attributes of a \<open>WebCrawler\<close> that the loop reads are the configuration; its
  \<open>visited\<close> set is part of the state, with the locals of \<open>crawl\<close>. The state also
  keeps what the generator has yielded so far, the exception that ended it if one did,
  and a log of the calls of \<open>fetch_page\<close>: the URL and the depth of the frontier entry.
  \<open>delay\<close> only sets the length of a \<open>time.sleep\<close> and is left out.
\<close>

record config =
  max_depth :: int
  max_pages :: int
  allow_external :: bool

record crawl_state =
  crawl_queue :: "(string \<times> int) list"
  visited :: "string set"
  pages_crawled :: int
  yielded :: "(string \<times> string \<times> string) list"
  fetch_log :: "(string \<times> int) list"
  raised :: "error option"

text \<open>The \<open>for link in page_data['links']\<close> loop. \<open>urljoin\<close> and \<open>normalize_url\<close>
  are called outside any \<open>try\<close>: their \<open>ValueError\<close> ends the generator.\<close>

fun add_links :: "env \<Rightarrow> config \<Rightarrow> string \<Rightarrow> string \<Rightarrow> int \<Rightarrow> string list \<Rightarrow> crawl_state \<Rightarrow> crawl_state" where
  "add_links e cfg base_domain current_url depth [] st = st"
| "add_links e cfg base_domain current_url depth (link # rest) st =
     (case urljoin (url_lib e) current_url link of
        Inl err \<Rightarrow> st\<lparr>raised := Some err\<rparr>
      | Inr absolute_url \<Rightarrow>
         (case normalize_url (url_lib e) absolute_url of
            Inl err \<Rightarrow> st\<lparr>raised := Some err\<rparr>
          | Inr normalized_url \<Rightarrow>
              add_links e cfg base_domain current_url depth rest
                (if normalized_url \<notin> visited st
                    \<and> is_valid_url (url_lib e) (allow_external cfg) normalized_url base_domain
                 then st\<lparr>crawl_queue := crawl_queue st @ [(normalized_url, depth + 1)]\<rparr>
                 else st)))"

text \<open>One iteration of the \<open>while\<close> loop, entered with a non-empty queue.\<close>

definition crawl_iter :: "env \<Rightarrow> config \<Rightarrow> string \<Rightarrow> crawl_state \<Rightarrow> crawl_state" where
  "crawl_iter e cfg base_domain st =
     (case crawl_queue st of
        [] \<Rightarrow> st
      | (current_url, depth) # rest \<Rightarrow>
          let st1 = st\<lparr>crawl_queue := rest\<rparr>
          in if current_url \<in> visited st1 then st1
             else if depth > max_depth cfg then st1
             else
               let st2 = st1\<lparr>visited := insert current_url (visited st1),
                              fetch_log := fetch_log st1 @ [(current_url, depth)]\<rparr>
               in case fetch_page e (length (fetch_log st1)) current_url of
                    None \<Rightarrow> st2
                  | Some pd \<Rightarrow>
                      let st3 = st2\<lparr>pages_crawled := pages_crawled st2 + 1,
                                     yielded := yielded st2 @ [(page_url pd, page_title pd, page_content pd)]\<rparr>
                      in if depth < max_depth cfg
                         then add_links e cfg base_domain current_url depth (page_links pd) st3
                         else st3)"

definition loop_cond :: "config \<Rightarrow> crawl_state \<Rightarrow> bool" where
  "loop_cond cfg st = (crawl_queue st \<noteq> [] \<and> pages_crawled st < max_pages cfg \<and> raised st = None)"

text \<open>The \<open>while\<close> loop. It ends: an iteration either yields a page, which can happen
  fewer than \<open>max_pages\<close> times, or leaves the queue shorter.\<close>

function crawl_loop :: "env \<Rightarrow> config \<Rightarrow> string \<Rightarrow> crawl_state \<Rightarrow> crawl_state" where
  "crawl_loop e cfg base_domain st =
     (if loop_cond cfg st then crawl_loop e cfg base_domain (crawl_iter e cfg base_domain st)
      else st)"
  by pat_completeness auto
termination
proof (relation "measures [\<lambda>(e, cfg, bd, st). nat (max_pages cfg - pages_crawled st),
                           \<lambda>(e, cfg, bd, st). length (crawl_queue st)]")
  show "wf (measures [\<lambda>(e, cfg, bd, st). nat (max_pages cfg - pages_crawled st),
                      \<lambda>(e, cfg, bd, st). length (crawl_queue st)])"
    by simp
next
  fix e :: env and cfg :: config and bd :: string and st :: crawl_state
  assume c: "loop_cond cfg st"
  have pages: "pages_crawled (add_links e cfg bd cu d ls s) = pages_crawled s" for cu d ls s
    by (induction ls arbitrary: s) (auto split: sum.splits)
  have "pages_crawled (crawl_iter e cfg bd st) = pages_crawled st + 1
         \<or> (pages_crawled (crawl_iter e cfg bd st) = pages_crawled st
             \<and> length (crawl_queue (crawl_iter e cfg bd st)) < length (crawl_queue st))"
    using c
    by (auto simp: crawl_iter_def loop_cond_def Let_def pages
             split: list.splits option.splits prod.splits)
  with c show "((e, cfg, bd, crawl_iter e cfg bd st), e, cfg, bd, st)
       \<in> measures [\<lambda>(e, cfg, bd, st). nat (max_pages cfg - pages_crawled st),
                    \<lambda>(e, cfg, bd, st). length (crawl_queue st)]"
    by (auto simp: loop_cond_def)
qed

declare crawl_loop.simps [simp del]

text \<open>The states a run goes through: the state at the loop head after any number of
  iterations.\<close>

inductive crawl_reaches :: "env \<Rightarrow> config \<Rightarrow> string \<Rightarrow> crawl_state \<Rightarrow> crawl_state \<Rightarrow> bool"
  for e :: env and cfg :: config and base_domain :: string and st0 :: crawl_state where
  start: "crawl_reaches e cfg base_domain st0 st0"
| step: "crawl_reaches e cfg base_domain st0 st \<Longrightarrow> loop_cond cfg st
         \<Longrightarrow> crawl_reaches e cfg base_domain st0 (crawl_iter e cfg base_domain st)"

text \<open>The lines of \<open>crawl\<close> before the loop: the seed is normalized, its authority is
  the base domain, the queue holds the seed at depth 0. \<open>self.visited\<close> is not assigned
  here: the loop starts with the set the instance holds. A \<open>ValueError\<close> of \<open>urlparse\<close>
  on the seed leaves \<open>crawl\<close> before the loop is entered.\<close>

definition crawl_init :: "urllib \<Rightarrow> string set \<Rightarrow> string \<Rightarrow> error + (string \<times> crawl_state)" where
  "crawl_init lib self_visited start_url0 =
     (case normalize_url lib start_url0 of
        Inl err \<Rightarrow> Inl err
      | Inr start_url \<Rightarrow>
         (case urlparse lib start_url '''' of
            Inl err \<Rightarrow> Inl err
          | Inr parsed \<Rightarrow>
              Inr (netloc parsed,
                   \<lparr>crawl_queue = [(start_url, 0)], visited = self_visited, pages_crawled = 0,
                    yielded = [], fetch_log = [], raised = None\<rparr>)))"

text \<open>\<open>WebCrawler.crawl\<close>, consumed to its end. \<open>Inl\<close> is an exception raised before the
  loop; an exception raised in the loop is in the field \<open>raised\<close> of the final state.\<close>

definition crawl :: "env \<Rightarrow> config \<Rightarrow> string set \<Rightarrow> string \<Rightarrow> error + crawl_state" where
  "crawl e cfg self_visited start_url =
     (case crawl_init (url_lib e) self_visited start_url of
        Inl err \<Rightarrow> Inl err
      | Inr (base_domain, st0) \<Rightarrow> Inr (crawl_loop e cfg base_domain st0))"

text \<open>\<open>WebCrawler.__init__\<close>: the configuration and an empty \<open>visited\<close> set.\<close>

definition WebCrawler :: "int \<Rightarrow> int \<Rightarrow> bool \<Rightarrow> config \<times> string set" where
  "WebCrawler depth pages external =
     (\<lparr>max_depth = depth, max_pages = pages, allow_external = external\<rparr>, {})"

section \<open>The caller\<close>

text \<open>The ``Start Crawling'' handler of \<open>main\<close> in \<open>app.py\<close>, up to the end of the crawl:
  it checks the seed, builds a new \<open>WebCrawler\<close> and consumes \<open>crawl\<close>. Any exception
  is caught and shown as an error message.\<close>

datatype app_outcome =
  NoUrl
| InvalidUrl
| ErrorOccurred error
| Crawled crawl_state

definition start_crawling :: "env \<Rightarrow> int \<Rightarrow> int \<Rightarrow> bool \<Rightarrow> string \<Rightarrow> app_outcome" where
  "start_crawling e depth pages external start_url =
     (if start_url = '''' then NoUrl
      else case urlparse (url_lib e) start_url '''' of
        Inl err \<Rightarrow> ErrorOccurred err
      | Inr parsed_url \<Rightarrow>
          if scheme parsed_url = '''' \<or> netloc parsed_url = '''' then InvalidUrl
          else
            let (cfg, self_visited) = WebCrawler depth pages external
            in case crawl e cfg self_visited start_url of
                 Inl err \<Rightarrow> ErrorOccurred err
               | Inr st \<Rightarrow> (case raised st of Some err \<Rightarrow> ErrorOccurred err | None \<Rightarrow> Crawled st))"

section \<open>Shapes of URLs\<close>












section \<open>Predicates of the properties\<close>

text \<open>The page budget and the depth bound, on a state of the loop.\<close>

definition budget_inv :: "config \<Rightarrow> crawl_state \<Rightarrow> bool" where
  "budget_inv cfg st =
     (pages_crawled st = int (length (yielded st)) \<and> pages_crawled st \<le> max_pages cfg
      \<and> (\<forall>x \<in> set (fetch_log st). snd x \<le> max_depth cfg)
      \<and> (\<forall>r \<in> set (yielded st). \<exists>d. d \<le> max_depth cfg \<and> (fst r, d) \<in> set (fetch_log st)))"

text \<open>No URL is fetched twice, and \<open>visited\<close> is the set the instance started with
  plus the URLs fetched.\<close>

definition visit_inv :: "string set \<Rightarrow> crawl_state \<Rightarrow> bool" where
  "visit_inv self_visited st =
     (distinct (map fst (fetch_log st))
      \<and> visited st = self_visited \<union> fst ` set (fetch_log st)
      \<and> self_visited \<inter> fst ` set (fetch_log st) = {})"



section \<open>A small site\<close>

text \<open>The library of the concrete runs below: CPython 3.12.3, with an
  \<open>ipaddress.ip_address\<close> that knows one IPv6 address.\<close>

definition example_lib :: urllib where
  "example_lib = cpython_3_12_3 (\<lambda>s. s = ''::1'')"


text \<open>A site of three pages for the concrete runs below. The seed page links to
  \<open>/a\<close> twice (with and without a trailing slash), to another host and to an image;
  \<open>/a\<close> links back to the root and to \<open>/b\<close>, which cannot be fetched.\<close>

definition example_site :: "nat \<Rightarrow> string \<Rightarrow> response option" where
  "example_site n u =
     (if u = ''http://a.com/''
      then Some \<lparr>content_type = ''text/html; charset=utf-8'', extracted_title = ''Home'',
                 extracted_content = ''hello'',
                 anchor_hrefs = [''/a'', ''/a/'', ''http://b.com/x'', ''/pic.JPG'']\<rparr>
      else if u = ''http://a.com/a''
      then Some \<lparr>content_type = ''text/html'', extracted_title = ''A'',
                 extracted_content = ''page a'', anchor_hrefs = [''/'', ''b'']\<rparr>
      else None)"

definition example_env :: env where
  "example_env = \<lparr>http_get = example_site, url_lib = example_lib, set_order = remdups\<rparr>"

definition example_config :: config where
  "example_config = \<lparr>max_depth = 2, max_pages = 5, allow_external = False\<rparr>"

definition example_start :: crawl_state where
  "example_start =
     \<lparr>crawl_queue = [(''http://a.com/'', 0)], visited = {}, pages_crawled = 0,
      yielded = [], fetch_log = [], raised = None\<rparr>"

definition example_final :: crawl_state where
  "example_final =
     \<lparr>crawl_queue = [],
      visited = {''http://a.com/'', ''http://a.com/a'', ''http://a.com/b''},
      pages_crawled = 2,
      yielded = [(''http://a.com/'', ''Home'', ''hello''), (''http://a.com/a'', ''A'', ''page a'')],
      fetch_log = [(''http://a.com/'', 0), (''http://a.com/a'', 1), (''http://a.com/b'', 2)],
      raised = None\<rparr>"

text \<open>The state in which a second \<open>crawl\<close> of the seed starts on the instance that
  has just crawled the small site.\<close>

definition example_second_start :: crawl_state where
  "example_second_start =
     \<lparr>crawl_queue = [(''http://a.com/'', 0)],
      visited = {''http://a.com/'', ''http://a.com/a'', ''http://a.com/b''},
      pages_crawled = 0, yielded = [], fetch_log = [], raised = None\<rparr>"






section \<open>Facts about the loop\<close>

lemma add_links_fields:
  "visited (add_links e cfg bd cu d ls st) = visited st"
  "pages_crawled (add_links e cfg bd cu d ls st) = pages_crawled st"
  "yielded (add_links e cfg bd cu d ls st) = yielded st"
  "fetch_log (add_links e cfg bd cu d ls st) = fetch_log st"
  by (induction ls arbitrary: st; auto split: sum.splits)+

text \<open>What the link loop appends to the queue: entries one level deeper, valid and not
  visited.\<close>

lemma add_links_queue:
  "\<exists>new. crawl_queue (add_links e cfg bd cu d ls st) = crawl_queue st @ new
         \<and> (\<forall>x \<in> set new. snd x = d + 1
               \<and> is_valid_url (url_lib e) (allow_external cfg) (fst x) bd
               \<and> fst x \<notin> visited st)"
proof (induction ls arbitrary: st)
  case Nil
  then show ?case by simp
next
  case (Cons link rest)
  show ?case
  proof (cases "urljoin (url_lib e) cu link")
    case (Inl err)
    then show ?thesis by simp
  next
    case (Inr a)
    note a = this
    show ?thesis
    proof (cases "normalize_url (url_lib e) a")
      case (Inl err)
      with a show ?thesis by simp
    next
      case (Inr n)
      let ?st' = "if n \<notin> visited st \<and> is_valid_url (url_lib e) (allow_external cfg) n bd
                  then st\<lparr>crawl_queue := crawl_queue st @ [(n, d + 1)]\<rparr> else st"
      from Cons.IH[of ?st'] obtain new where
        new: "crawl_queue (add_links e cfg bd cu d rest ?st') = crawl_queue ?st' @ new"
             "\<forall>x \<in> set new. snd x = d + 1
               \<and> is_valid_url (url_lib e) (allow_external cfg) (fst x) bd
               \<and> fst x \<notin> visited ?st'"
        by blast
      have eq: "add_links e cfg bd cu d (link # rest) st = add_links e cfg bd cu d rest ?st'"
        using a Inr by simp
      show ?thesis
      proof (cases "n \<notin> visited st \<and> is_valid_url (url_lib e) (allow_external cfg) n bd")
        case True
        with new eq show ?thesis
          by (intro exI[of _ "(n, d + 1) # new"]) auto
      next
        case False
        with new eq show ?thesis
          by (intro exI[of _ new]) auto
      qed
    qed
  qed
qed

lemma fetch_page_url: "fetch_page e n u = Some pd \<Longrightarrow> page_url pd = u"
  by (auto simp: fetch_page_def split: option.splits if_splits)

text \<open>The three ways through one iteration: the entry is discarded, the fetch fails,
  or a page is yielded and its links are queued.\<close>

lemma crawl_iter_cases:
  assumes q: "crawl_queue s = (u, d) # rest"
  obtains
    (skip) "u \<in> visited s \<or> max_depth cfg < d"
           "crawl_iter e cfg bd s = s\<lparr>crawl_queue := rest\<rparr>"
  | (failed) "u \<notin> visited s" "d \<le> max_depth cfg"
           "fetch_page e (length (fetch_log s)) u = None"
           "crawl_iter e cfg bd s = s\<lparr>crawl_queue := rest, visited := insert u (visited s),
                                       fetch_log := fetch_log s @ [(u, d)]\<rparr>"
  | (fetched) pd new where "u \<notin> visited s" "d \<le> max_depth cfg"
           "fetch_page e (length (fetch_log s)) u = Some pd"
           "visited (crawl_iter e cfg bd s) = insert u (visited s)"
           "fetch_log (crawl_iter e cfg bd s) = fetch_log s @ [(u, d)]"
           "pages_crawled (crawl_iter e cfg bd s) = pages_crawled s + 1"
           "yielded (crawl_iter e cfg bd s) = yielded s @ [(u, page_title pd, page_content pd)]"
           "crawl_queue (crawl_iter e cfg bd s) = rest @ new"
           "\<forall>x \<in> set new. snd x = d + 1 \<and> d < max_depth cfg
               \<and> is_valid_url (url_lib e) (allow_external cfg) (fst x) bd
               \<and> fst x \<notin> insert u (visited s)"
proof (cases "u \<in> visited s \<or> max_depth cfg < d")
  case True
  with q have "crawl_iter e cfg bd s = s\<lparr>crawl_queue := rest\<rparr>"
    by (auto simp: crawl_iter_def Let_def)
  with True show ?thesis by (rule skip)
next
  case False
  then have nv: "u \<notin> visited s" and dd: "d \<le> max_depth cfg" by auto
  show ?thesis
  proof (cases "fetch_page e (length (fetch_log s)) u")
    case None
    with q nv dd have "crawl_iter e cfg bd s
        = s\<lparr>crawl_queue := rest, visited := insert u (visited s),
             fetch_log := fetch_log s @ [(u, d)]\<rparr>"
      by (simp add: crawl_iter_def Let_def)
    with nv dd None show ?thesis by (rule failed)
  next
    case (Some pd)
    let ?st3 = "s\<lparr>crawl_queue := rest, visited := insert u (visited s),
                   fetch_log := fetch_log s @ [(u, d)],
                   pages_crawled := pages_crawled s + 1,
                   yielded := yielded s @ [(u, page_title pd, page_content pd)]\<rparr>"
    have pu: "page_url pd = u" using Some by (rule fetch_page_url)
    have it: "crawl_iter e cfg bd s
        = (if d < max_depth cfg then add_links e cfg bd u d (page_links pd) ?st3 else ?st3)"
      using q nv dd Some pu by (simp add: crawl_iter_def Let_def)
    show ?thesis
    proof (cases "d < max_depth cfg")
      case True
      from add_links_queue[of e cfg bd u d "page_links pd" ?st3] obtain new where
        new: "crawl_queue (add_links e cfg bd u d (page_links pd) ?st3) = rest @ new"
             "\<forall>x \<in> set new. snd x = d + 1
               \<and> is_valid_url (url_lib e) (allow_external cfg) (fst x) bd
               \<and> fst x \<notin> insert u (visited s)"
        by auto
      show ?thesis
        using nv dd Some
      proof (rule fetched[of pd new])
        show "\<forall>x \<in> set new. snd x = d + 1 \<and> d < max_depth cfg
               \<and> is_valid_url (url_lib e) (allow_external cfg) (fst x) bd
               \<and> fst x \<notin> insert u (visited s)"
          using new(2) True by blast
      qed (simp_all add: it True add_links_fields new(1))
    next
      case False
      show ?thesis
        using nv dd Some
        by (rule fetched[of pd "[]"]) (simp_all add: it False)
    qed
  qed
qed

lemma loop_cond_queue:
  assumes "loop_cond cfg s"
  obtains u d rest where "crawl_queue s = (u, d) # rest"
  using assms by (cases "crawl_queue s") (auto simp: loop_cond_def)

lemma crawl_loop_reaches_from:
  "crawl_reaches e cfg bd st0 st \<Longrightarrow> crawl_reaches e cfg bd st0 (crawl_loop e cfg bd st)"
proof (induction e cfg bd st rule: crawl_loop.induct)
  case (1 e cfg bd st)
  show ?case
  proof (cases "loop_cond cfg st")
    case True
    with 1 show ?thesis
      by (subst crawl_loop.simps) (simp add: crawl_reaches.step)
  next
    case False
    with 1 show ?thesis
      by (subst crawl_loop.simps) simp
  qed
qed

text \<open>The state in which the loop ends is one of the states of the run.\<close>

lemma crawl_loop_reaches: "crawl_reaches e cfg bd st (crawl_loop e cfg bd st)"
  by (rule crawl_loop_reaches_from) (rule crawl_reaches.start)

lemma crawl_reaches_invariant:
  assumes "crawl_reaches e cfg bd st0 st" and "P st0"
    and "\<And>s. P s \<Longrightarrow> loop_cond cfg s \<Longrightarrow> P (crawl_iter e cfg bd s)"
  shows "P st"
  using assms by (induction rule: crawl_reaches.induct) auto

lemma crawl_init_state:
  assumes "crawl_init lib vis seed = Inr (bd, st0)"
  shows "\<exists>s p. normalize_url lib seed = Inr s \<and> urlparse lib s '''' = Inr p \<and> netloc p = bd
           \<and> st0 = \<lparr>crawl_queue = [(s, 0)], visited = vis, pages_crawled = 0,
                    yielded = [], fetch_log = [], raised = None\<rparr>"
  using assms by (auto simp: crawl_init_def split: sum.splits)

lemma budget_inv_step:
  assumes inv: "budget_inv cfg s" and c: "loop_cond cfg s"
  shows "budget_inv cfg (crawl_iter e cfg bd s)"
proof -
  from c obtain u d rest where q: "crawl_queue s = (u, d) # rest"
    by (rule loop_cond_queue)
  from q show ?thesis
  proof (cases rule: crawl_iter_cases[where e = e and cfg = cfg and bd = bd])
    case skip
    with inv show ?thesis by (simp add: budget_inv_def)
  next
    case failed
    with inv show ?thesis by (auto simp: budget_inv_def)
  next
    case (fetched pd new)
    with inv c show ?thesis
      by (auto simp: budget_inv_def loop_cond_def)
  qed
qed

lemma visit_inv_step:
  assumes inv: "visit_inv vis s" and c: "loop_cond cfg s"
  shows "visit_inv vis (crawl_iter e cfg bd s)"
proof -
  from c obtain u d rest where q: "crawl_queue s = (u, d) # rest"
    by (rule loop_cond_queue)
  from q show ?thesis
  proof (cases rule: crawl_iter_cases[where e = e and cfg = cfg and bd = bd])
    case skip
    with inv show ?thesis by (simp add: visit_inv_def)
  next
    case failed
    with inv show ?thesis by (auto simp: visit_inv_def)
  next
    case (fetched pd new)
    with inv show ?thesis by (auto simp: visit_inv_def)
  qed
qed

lemma crawl_iter_visited_mono: "visited s \<subseteq> visited (crawl_iter e cfg bd s)"
proof (cases "crawl_queue s")
  case Nil
  then show ?thesis by (simp add: crawl_iter_def)
next
  case (Cons x rest)
  obtain u d where "x = (u, d)" by (cases x)
  with Cons have q: "crawl_queue s = (u, d) # rest" by simp
  from q show ?thesis
    by (cases rule: crawl_iter_cases[where e = e and cfg = cfg and bd = bd]) auto
qed

lemma crawl_iter_discard:
  assumes "crawl_queue s = (u, d) # rest" and "u \<in> visited s"
  shows "crawl_iter e cfg bd s = s\<lparr>crawl_queue := rest\<rparr>"
  using assms by (simp add: crawl_iter_def)



section \<open>The run on the small site\<close>

lemma example_init:
  "crawl_init (url_lib example_env) {} ''http://a.com/'' = Inr (''a.com'', example_start)"
  by code_simp

lemma example_first_iter:
  "crawl_queue (crawl_iter example_env example_config ''a.com'' example_start)
   = [(''http://a.com/a'', 1), (''http://a.com/a'', 1)]"
  by code_simp

lemma example_run:
  "crawl_loop example_env example_config ''a.com'' example_start = example_final"
  by code_simp

lemma example_reaches:
  "crawl_reaches example_env example_config ''a.com'' example_start example_final"
  using crawl_loop_reaches[of example_env example_config "''a.com''" example_start]
  by (simp only: example_run)

section \<open>The page budget and the depth bound\<close>

lemma crawl_iter_too_deep:
  assumes "crawl_queue s = (u, d) # rest" and "max_depth cfg < d"
  shows "crawl_iter e cfg bd s = s\<lparr>crawl_queue := rest\<rparr>"
  using assms by (simp add: crawl_iter_def Let_def)

text \<open>
  Claim C1. In every crawl run and at every step of it, the number of page records
  yielded never exceeds \<open>max_pages\<close>, and no frontier entry deeper than \<open>max_depth\<close> is
  fetched or yielded: every call of \<open>fetch_page\<close> is for an entry of depth at most
  \<open>max_depth\<close>, and every record yielded is the page of such a call. A deeper entry
  at the front of the queue is discarded: the iteration only removes it.

  The run starts from any seed that \<open>crawl\<close> accepts and from any \<open>visited\<close> set; the
  states are those at the head of the loop, the last of them the one in which the loop
  ends (\<open>crawl_loop_reaches\<close>). Between two of them the generator yields at most one
  record, and the count at the \<open>yield\<close> is the count at the next loop head.
  \<open>max_pages\<close> is a count of pages, as in the spec (an unsigned integer): it is not
  negative.
\<close>

theorem crawl_budget_and_depth:
  assumes "0 \<le> max_pages cfg"
    and "crawl_init (url_lib e) vis seed = Inr (bd, st0)"
    and "crawl_reaches e cfg bd st0 st"
  shows "int (length (yielded st)) \<le> max_pages cfg
       \<and> (\<forall>x \<in> set (fetch_log st). snd x \<le> max_depth cfg)
       \<and> (\<forall>r \<in> set (yielded st). \<exists>d. d \<le> max_depth cfg \<and> (fst r, d) \<in> set (fetch_log st))
       \<and> (\<forall>u d rest. crawl_queue st = (u, d) # rest \<and> max_depth cfg < d
            \<longrightarrow> crawl_iter e cfg bd st = st\<lparr>crawl_queue := rest\<rparr>)"
proof -
  from crawl_init_state[OF assms(2)] assms(1) have "budget_inv cfg st0"
    by (auto simp: budget_inv_def)
  with assms(3) have "budget_inv cfg st"
    by (rule crawl_reaches_invariant) (rule budget_inv_step)
  then show ?thesis by (simp add: budget_inv_def crawl_iter_too_deep)
qed

theorem crawl_budget_and_depth_witness:
  "0 \<le> max_pages example_config
   \<and> crawl_init (url_lib example_env) {} ''http://a.com/'' = Inr (''a.com'', example_start)
   \<and> crawl_reaches example_env example_config ''a.com'' example_start example_final
   \<and> length (yielded example_final) = 2
   \<and> int (length (yielded example_final)) \<le> max_pages example_config
   \<and> list_all (\<lambda>x. snd x \<le> max_depth example_config) (fetch_log example_final)"
proof -
  have h: "0 \<le> max_pages example_config" by (simp add: example_config_def)
  have two: "length (yielded example_final) = 2" by (simp add: example_final_def)
  from crawl_budget_and_depth[OF h example_init example_reaches]
  show ?thesis using h example_init example_reaches two
    by (simp add: list_all_iff)
qed

section \<open>Each URL is fetched at most once\<close>

text \<open>
  Claim C2. In every crawl run each URL is fetched at most once: the URLs passed to
  \<open>fetch_page\<close> are pairwise distinct. A URL enters \<open>visited\<close> when it is dequeued for
  fetching and at no other moment: \<open>visited\<close> is the set the run started with plus the
  URLs fetched, it never shrinks, and queueing links leaves it unchanged. A queue entry
  whose URL is in \<open>visited\<close> is discarded: the iteration only removes it from the queue.
  The same URL can be in the frontier several times at once: on the small site the queue
  after the first iteration holds \<open>http://a.com/a\<close> twice.
\<close>

theorem fetched_at_most_once:
  assumes "crawl_init (url_lib e) vis seed = Inr (bd, st0)"
    and "crawl_reaches e cfg bd st0 st"
  shows "distinct (map fst (fetch_log st))
       \<and> visited st = vis \<union> fst ` set (fetch_log st)
       \<and> visited st \<subseteq> visited (crawl_iter e cfg bd st)
       \<and> (\<forall>cu d ls. visited (add_links e cfg bd cu d ls st) = visited st)
       \<and> (\<forall>u d rest. crawl_queue st = (u, d) # rest \<and> u \<in> visited st
            \<longrightarrow> crawl_iter e cfg bd st = st\<lparr>crawl_queue := rest\<rparr>)
       \<and> \<not> distinct (map fst (crawl_queue
                (crawl_iter example_env example_config ''a.com'' example_start)))"
proof -
  from crawl_init_state[OF assms(1)] have "visit_inv vis st0"
    by (auto simp: visit_inv_def)
  with assms(2) have "visit_inv vis st"
    by (rule crawl_reaches_invariant) (rule visit_inv_step)
  then show ?thesis
    by (auto simp: visit_inv_def add_links_fields crawl_iter_discard example_first_iter
             intro: subsetD[OF crawl_iter_visited_mono])
qed

theorem fetched_at_most_once_witness:
  "crawl_init (url_lib example_env) {} ''http://a.com/'' = Inr (''a.com'', example_start)
   \<and> crawl_reaches example_env example_config ''a.com'' example_start example_final
   \<and> map fst (fetch_log example_final) = [''http://a.com/'', ''http://a.com/a'', ''http://a.com/b'']
   \<and> distinct (map fst (fetch_log example_final))
   \<and> visited example_final = {} \<union> fst ` set (fetch_log example_final)"
proof -
  have l: "map fst (fetch_log example_final)
           = [''http://a.com/'', ''http://a.com/a'', ''http://a.com/b'']"
    by (simp add: example_final_def)
  from fetched_at_most_once[OF example_init example_reaches]
  show ?thesis using example_init example_reaches l by simp
qed

section \<open>Staying on the seed's authority\<close>



section \<open>Excluded extensions\<close>

text \<open>
  Claim C9. \<open>is_valid_url\<close> is false for every URL whose path, lowered, ends in one of
  the excluded extensions (\<open>.pdf\<close>, \<open>.doc\<close>, \<open>.docx\<close>, \<open>.xls\<close>, \<open>.xlsx\<close>, \<open>.ppt\<close>,
  \<open>.pptx\<close>, \<open>.zip\<close>, \<open>.rar\<close>, \<open>.tar\<close>, \<open>.gz\<close>, \<open>.mp3\<close>, \<open>.mp4\<close>, \<open>.avi\<close>, \<open>.jpg\<close>,
  \<open>.jpeg\<close>, \<open>.png\<close>, \<open>.gif\<close>, \<open>.svg\<close>, \<open>.ico\<close>, \<open>.css\<close>, \<open>.js\<close>, \<open>.xml\<close>,
  \<open>.json\<close>), whatever the base domain and \<open>allow_external\<close>: \<open>.JPG\<close> is rejected as
  \<open>.jpg\<close> is. The path is the one \<open>urlparse\<close> gives.
\<close>

theorem excluded_extension_invalid:
  assumes "urlparse lib u '''' = Inr parsed"
    and "ext \<in> set [''.pdf'', ''.doc'', ''.docx'', ''.xls'', ''.xlsx'', ''.ppt'', ''.pptx'',
      ''.zip'', ''.rar'', ''.tar'', ''.gz'', ''.mp3'', ''.mp4'', ''.avi'',
      ''.jpg'', ''.jpeg'', ''.png'', ''.gif'', ''.svg'', ''.ico'',
      ''.css'', ''.js'', ''.xml'', ''.json'']"
    and "endswith (lower (path parsed)) ext"
  shows "\<not> is_valid_url lib allow u bd"
proof -
  from assms(2) have "ext \<in> set excluded_extensions"
    by (simp only: excluded_extensions_def)
  with assms(1,3) show ?thesis
    by (auto simp: is_valid_url_def)
qed

theorem excluded_extension_invalid_witness:
  "urlparse (url_lib example_env) ''http://a.com/pic.JPG'' ''''
     = Inr \<lparr>scheme = ''http'', netloc = ''a.com'', path = ''/pic.JPG'', params = '''',
            query = '''', fragment = ''''\<rparr>
   \<and> endswith (lower ''/pic.JPG'') ''.jpg''
   \<and> \<not> is_valid_url (url_lib example_env) True ''http://a.com/pic.JPG'' ''a.com''"
proof -
  have p: "urlparse (url_lib example_env) ''http://a.com/pic.JPG'' ''''
     = Inr \<lparr>scheme = ''http'', netloc = ''a.com'', path = ''/pic.JPG'', params = '''',
            query = '''', fragment = ''''\<rparr>"
    by code_simp
  have l: "endswith (lower ''/pic.JPG'') ''.jpg''"
    by code_simp
  from excluded_extension_invalid[OF p, of "''.jpg''" True "''a.com''"] l
  show ?thesis using p by simp
qed

section \<open>The state a run starts from\<close>

lemma reaches_visit_inv:
  assumes "crawl_init lib vis seed = Inr (bd, st0)"
    and "crawl_reaches e cfg bd st0 st"
  shows "visit_inv vis st"
proof -
  from crawl_init_state[OF assms(1)] have "visit_inv vis st0"
    by (auto simp: visit_inv_def)
  with assms(2) show ?thesis
    by (rule crawl_reaches_invariant) (rule visit_inv_step)
qed

text \<open>
  Claim C7 says that every invocation of \<open>crawl\<close> starts from an empty \<open>visited\<close> set,
  whatever was crawled before. The code does not do that: \<open>visited\<close> is created in
  \<open>__init__\<close> and \<open>crawl\<close> never resets it. On the small site, a first \<open>crawl\<close> on a
  new instance fetches three URLs; a second \<open>crawl\<close> of the same seed on that instance
  starts with these three URLs in \<open>visited\<close>, discards the seed and yields nothing.
\<close>

theorem second_crawl_shares_visited:
  "crawl example_env example_config (snd (WebCrawler 2 5 False)) ''http://a.com/''
     = Inr example_final
   \<and> crawl_init (url_lib example_env) (visited example_final) ''http://a.com/''
       = Inr (''a.com'', example_second_start)
   \<and> visited example_second_start \<noteq> {}
   \<and> crawl example_env example_config (visited example_final) ''http://a.com/''
       = Inr (example_second_start\<lparr>crawl_queue := []\<rparr>)"
proof (intro conjI)
  show "crawl example_env example_config (snd (WebCrawler 2 5 False)) ''http://a.com/''
          = Inr example_final"
    by code_simp
  show "crawl_init (url_lib example_env) (visited example_final) ''http://a.com/''
          = Inr (''a.com'', example_second_start)"
    by code_simp
  show "visited example_second_start \<noteq> {}"
    by (simp add: example_second_start_def)
  show "crawl example_env example_config (visited example_final) ''http://a.com/''
          = Inr (example_second_start\<lparr>crawl_queue := []\<rparr>)"
    by code_simp
qed

text \<open>
  Claim C7, as amended. Every invocation of \<open>crawl\<close> that accepts its seed starts with a
  queue holding only the normalized seed at depth 0, with no page crawled and nothing
  yielded. Its \<open>visited\<close> set is the one the instance holds: empty on a new
  \<open>WebCrawler\<close> (the caller in \<open>app.py\<close> builds one for every crawl), and otherwise what
  the earlier runs on the instance left, which every state of the run still contains.
\<close>

theorem crawl_start_state:
  assumes "crawl_init (url_lib e) vis seed = Inr (bd, st0)"
    and "crawl_reaches e cfg bd st0 st"
  shows "(\<exists>s. normalize_url (url_lib e) seed = Inr s \<and> crawl_queue st0 = [(s, 0)])
       \<and> pages_crawled st0 = 0 \<and> yielded st0 = [] \<and> fetch_log st0 = []
       \<and> visited st0 = vis
       \<and> vis \<subseteq> visited st
       \<and> snd (WebCrawler depth pages external) = {}"
proof -
  from reaches_visit_inv[OF assms] have "vis \<subseteq> visited st"
    by (auto simp: visit_inv_def)
  with crawl_init_state[OF assms(1)] show ?thesis
    by (auto simp: WebCrawler_def)
qed

theorem crawl_start_state_witness:
  "crawl_init (url_lib example_env) {} ''http://a.com/'' = Inr (''a.com'', example_start)
   \<and> crawl_reaches example_env example_config ''a.com'' example_start example_final
   \<and> crawl_queue example_start = [(''http://a.com/'', 0)]
   \<and> pages_crawled example_start = 0
   \<and> visited example_start = {}
   \<and> snd (WebCrawler 2 5 False) = {}"
proof -
  have q: "crawl_queue example_start = [(''http://a.com/'', 0)]"
    by (simp add: example_start_def)
  from crawl_start_state[OF example_init example_reaches, of 2 5 False]
  show ?thesis using example_init example_reaches q by simp
qed

section \<open>The seed is not validated\<close>







section \<open>Who rejects a malformed seed\<close>

text \<open>
  Claim C6 says that the controller rejects a seed without a scheme or an authority with
  a \<open>ConfigError\<close>, before any fetch. \<open>crawl\<close> has no such check and no such error:
  given the seed \<open>example.com/page\<close>, which has neither, it returns normally after
  calling \<open>fetch_page\<close> on it.
\<close>

theorem crawl_accepts_schemeless_seed:
  "map_sum id fetch_log (crawl example_env example_config {} ''example.com/page'')
     = Inr [(''example.com/page'', 0)]"
  by code_simp

text \<open>
  Claim C6, as amended. The check is in the caller: the handler in \<open>app.py\<close> shows an
  error and returns when the seed has an empty scheme or an empty authority. It does so
  before a \<open>WebCrawler\<close> is built, so that nothing is fetched and nothing is yielded.
  \<open>crawl\<close> itself is never given such a seed by this caller.
\<close>

theorem caller_rejects_seed:
  assumes "urlparse (url_lib e) u '''' = Inr parsed"
    and "scheme parsed = '''' \<or> netloc parsed = ''''"
  shows "start_crawling e depth pages external u = (if u = '''' then NoUrl else InvalidUrl)"
  using assms by (auto simp: start_crawling_def)

theorem caller_rejects_seed_witness:
  "urlparse (url_lib example_env) ''example.com/page'' ''''
     = Inr \<lparr>scheme = '''', netloc = '''', path = ''example.com/page'', params = '''',
            query = '''', fragment = ''''\<rparr>
   \<and> start_crawling example_env 2 5 False ''example.com/page'' = InvalidUrl"
proof -
  have p: "urlparse (url_lib example_env) ''example.com/page'' ''''
     = Inr \<lparr>scheme = '''', netloc = '''', path = ''example.com/page'', params = '''',
            query = '''', fragment = ''''\<rparr>"
    by code_simp
  from caller_rejects_seed[OF p, of 2 5 False] p show ?thesis by simp
qed

section \<open>Facts about urlparse\<close>
























section \<open>The trailing slash\<close>




section \<open>Normalizing twice\<close>




section \<open>Facts about urljoin and the link loop\<close>





























section \<open>Errors of pages and links\<close>









end
